theory Spec2Isabelle
  imports Main "HOL-Library.Sublist"
begin

section \<open>Text primitives of the two scripts\<close>

text \<open>
  A Python \<open>str\<close> is modelled as a HOL \<open>string\<close>; every \<open>char\<close> stands for the code
  point of the same number (0 to 255).  File contents are the text that \<open>f.read()\<close>
  returns, that is after decoding and after the translation of line ends to \<open>\n\<close>.
\<close>

definition nl :: char where
  "nl = CHR 0x0A"

definition dq :: char where
  "dq = CHR 0x22"

text \<open>\<open>str.isspace\<close> and the class \<open>\s\<close> of \<open>re\<close> on code points below 256.\<close>

definition is_space :: "char \<Rightarrow> bool" where
  "is_space c = (let n = (of_char c :: nat) in
     (9 \<le> n \<and> n \<le> 13) \<or> (28 \<le> n \<and> n \<le> 32) \<or> n = 133 \<or> n = 160)"

text \<open>The lower-casing that \<open>re.IGNORECASE\<close> compares with, on code points below 256.\<close>

definition py_lower :: "char \<Rightarrow> char" where
  "py_lower c = (let n = (of_char c :: nat) in
     if (65 \<le> n \<and> n \<le> 90) \<or> (192 \<le> n \<and> n \<le> 222 \<and> n \<noteq> 215)
     then char_of (n + 32) else c)"

definition strip :: "string \<Rightarrow> string" where
  "strip s = rev (dropWhile is_space (rev (dropWhile is_space s)))"

definition startswith :: "string \<Rightarrow> string \<Rightarrow> bool" where
  "startswith s p = (take (length p) s = p)"

text \<open>\<open>s.find(sub, start)\<close> for \<open>start \<ge> 0\<close>: the lowest index from \<open>start\<close> on, or \<open>-1\<close>.\<close>

definition py_find :: "string \<Rightarrow> string \<Rightarrow> nat \<Rightarrow> int" where
  "py_find s sub start =
     (case List.find (\<lambda>i. take (length sub) (drop i s) = sub)
             [start ..< Suc (length s - length sub)] of
        None \<Rightarrow> - 1
      | Some i \<Rightarrow> (if length sub \<le> length s then int i else - 1))"

definition py_in :: "string \<Rightarrow> string \<Rightarrow> bool" where
  "py_in sub s = (py_find s sub 0 \<noteq> - 1)"

text \<open>Iterating over a text file: the lines, each with its line end when it has one.\<close>

fun lines_acc :: "string \<Rightarrow> string \<Rightarrow> string list" where
  "lines_acc cur [] = (if cur = [] then [] else [cur])"
| "lines_acc cur (c # cs) =
     (if c = nl then (cur @ [c]) # lines_acc [] cs else lines_acc (cur @ [c]) cs)"

definition file_lines :: "string \<Rightarrow> string list" where
  "file_lines text = lines_acc [] text"

text \<open>\<open>'\n'.join(xs)\<close>\<close>

fun join_nl :: "string list \<Rightarrow> string" where
  "join_nl [] = []"
| "join_nl [x] = x"
| "join_nl (x # y # ys) = x @ [nl] @ join_nl (y # ys)"

text \<open>The decimal text of a count, as an f-string prints it.\<close>

definition digit_char :: "nat \<Rightarrow> char" where
  "digit_char d = char_of (48 + d)"

function str_nat :: "nat \<Rightarrow> string" where
  "str_nat n = (if n < 10 then [digit_char n] else str_nat (n div 10) @ [digit_char (n mod 10)])"
  by pat_completeness auto
termination
  by (relation "measure id") auto

declare str_nat.simps [simp del]

section \<open>The fragment of \<open>re\<close> that the extractor uses\<close>

text \<open>
  The patterns of \<open>extract-ddl.py\<close> are built from literals, \<open>^\<close>, \<open>\s*\<close>, \<open>.*\<close>,
  an optional group, an alternation and concatenation.  \<open>re.escape(name)\<close> inside a
  pattern is the literal \<open>name\<close>.  The matcher is the backtracking one of \<open>re\<close>: it
  returns the end positions of all matches that start at a position, in the order in
  which backtracking finds them, so the head is the match \<open>re\<close> reports.
\<close>

datatype rx =
    Lit string
  | Bol
  | Space_star
  | Any_star
  | Opt rx
  | Alt rx rx
  | Seq rx rx

record re_flags =
  ignorecase :: bool
  multiline :: bool

text \<open>A literal is compared character by character, modulo case under \<open>re.IGNORECASE\<close>.\<close>

definition char_eq :: "bool \<Rightarrow> char \<Rightarrow> char \<Rightarrow> bool" where
  "char_eq ic a b = (if ic then py_lower a = py_lower b else a = b)"

fun lit_eq :: "bool \<Rightarrow> string \<Rightarrow> string \<Rightarrow> bool" where
  "lit_eq ic [] [] = True"
| "lit_eq ic (a # as) (b # bs) = (if char_eq ic a b then lit_eq ic as bs else False)"
| "lit_eq ic _ _ = False"

text \<open>The end positions of a greedy repetition of one character class, longest first.\<close>

definition star_ends :: "(char \<Rightarrow> bool) \<Rightarrow> string \<Rightarrow> nat \<Rightarrow> nat list" where
  "star_ends P s i = rev [i ..< Suc (i + length (takeWhile P (drop i s)))]"

fun rx_match :: "re_flags \<Rightarrow> string \<Rightarrow> rx \<Rightarrow> nat \<Rightarrow> nat list" where
  "rx_match fl s (Lit l) i =
     (if i + length l \<le> length s \<and> lit_eq (ignorecase fl) (take (length l) (drop i s)) l
      then [i + length l] else [])"
| "rx_match fl s Bol i =
     (if i = 0 \<or> (multiline fl \<and> s ! (i - 1) = nl) then [i] else [])"
| "rx_match fl s Space_star i = star_ends is_space s i"
| "rx_match fl s Any_star i = star_ends (\<lambda>c. c \<noteq> nl) s i"
| "rx_match fl s (Opt r) i = rx_match fl s r i @ [i]"
| "rx_match fl s (Alt a b) i = rx_match fl s a i @ rx_match fl s b i"
| "rx_match fl s (Seq a b) i = concat (map (rx_match fl s b) (rx_match fl s a i))"

text \<open>\<open>re.search\<close>: the leftmost start with a match, as \<open>(match.start(), match.end())\<close>.\<close>

definition re_search :: "re_flags \<Rightarrow> rx \<Rightarrow> string \<Rightarrow> (nat \<times> nat) option" where
  "re_search fl r s =
     (case List.find (\<lambda>i. rx_match fl s r i \<noteq> []) [0 ..< Suc (length s)] of
        None \<Rightarrow> None
      | Some i \<Rightarrow> Some (i, hd (rx_match fl s r i)))"

fun seqs :: "rx list \<Rightarrow> rx" where
  "seqs [] = Lit []"
| "seqs [r] = r"
| "seqs (r # rs) = Seq r (seqs rs)"

section \<open>\<open>extract-ddl.py\<close>\<close>

definition read_table_list :: "string \<Rightarrow> string list" where
  "read_table_list text = map strip (filter (\<lambda>line. strip line \<noteq> []) (file_lines text))"

definition determine_source_file :: "string \<Rightarrow> string" where
  "determine_source_file table_name =
     (if startswith table_name ''kfa'' \<or> startswith table_name ''kgl''
      then ''acct_db.sql'' else ''core_db.sql'')"

definition dashes :: string where
  "dashes = ''----------------------------''"

definition table_header_pattern :: "string \<Rightarrow> rx" where
  "table_header_pattern table_name = seqs
     [Bol, Lit (''-- '' @ dashes), Space_star, Lit [nl],
      Lit ''-- Table structure for '',
      Opt (seqs [Lit ''uat_suncbs_'', Alt (Lit ''acct'') (Lit ''core''), Lit ''db.'']),
      Lit table_name, Space_star, Lit [nl], Lit (''-- '' @ dashes)]"

definition next_table_pattern :: rx where
  "next_table_pattern = seqs
     [Bol, Lit (''-- '' @ dashes), Space_star, Lit [nl], Lit ''-- Table structure for'']"

definition drop_table_pattern :: "string \<Rightarrow> rx" where
  "drop_table_pattern table_name = seqs [Lit ''DROP TABLE'', Any_star, Lit table_name]"

definition drop_statement :: "string \<Rightarrow> string \<Rightarrow> string" where
  "drop_statement schema_name table_name =
     ''DROP TABLE IF EXISTS '' @ [dq] @ schema_name @ [dq] @ ''.'' @ [dq] @ table_name @ [dq]
       @ '';'' @ [nl, nl]"

text \<open>Lines 65 to 77: the section of the table, from its header to the next one, trimmed.\<close>

definition ddl_section :: "string \<Rightarrow> nat \<times> nat \<Rightarrow> string" where
  "ddl_section content m =
     (let start_pos = fst m;
          end_pos = (case re_search \<lparr>ignorecase = False, multiline = True\<rparr> next_table_pattern
                            (drop (snd m) content) of
                       Some nm \<Rightarrow> snd m + fst nm
                     | None \<Rightarrow> length content)
      in strip (take (end_pos - start_pos) (drop start_pos content)))"

text \<open>Lines 79 to 87: the DROP statement is added when the section has none.\<close>

definition add_drop :: "string \<Rightarrow> string \<Rightarrow> string \<Rightarrow> string" where
  "add_drop sql_file table_name ddl =
     (if re_search \<lparr>ignorecase = True, multiline = False\<rparr> (drop_table_pattern table_name) ddl
           = None
      then
        (let schema_name = (if py_in ''acct_db'' sql_file
                            then ''uat_suncbs_acctdb'' else ''uat_suncbs_coredb'');
             header_end = py_find ddl dashes (nat (py_find ddl dashes 0 + 1))
         in if header_end \<noteq> - 1
            then (let header_end' = nat (py_find ddl [nl] (nat header_end) + 1)
                  in take header_end' ddl @ drop_statement schema_name table_name
                       @ drop header_end' ddl)
            else ddl)
      else ddl)"

text \<open>The body of \<open>extract_table_ddl\<close> once the file has been read.\<close>

definition extract_from_content :: "string \<Rightarrow> string \<Rightarrow> string \<Rightarrow> string option" where
  "extract_from_content sql_file content table_name =
     (case re_search \<lparr>ignorecase = True, multiline = True\<rparr>
             (table_header_pattern table_name) content of
        None \<Rightarrow> None
      | Some m \<Rightarrow> Some (add_drop sql_file table_name (ddl_section content m)))"

datatype py_error = FileNotFoundError

type_synonym filesystem = "string \<Rightarrow> string option"

definition extract_table_ddl :: "filesystem \<Rightarrow> string \<Rightarrow> string \<Rightarrow> py_error + string option" where
  "extract_table_ddl fs sql_file table_name =
     (case fs sql_file of
        None \<Rightarrow> Inl FileNotFoundError
      | Some content \<Rightarrow> Inr (extract_from_content sql_file content table_name))"

text \<open>
  \<open>create_zip_with_ddls\<close>: the archive is the list of its members \<open>(name, data)\<close> in
  the order of the \<open>writestr\<close> calls; the summary prints \<open>extracted_count\<close> and the
  elements of \<open>missing_tables\<close>.
\<close>

record zip_state =
  entries :: "(string \<times> string) list"
  extracted_count :: nat
  missing_tables :: "string list"

text \<open>\<open>str(script_dir / source_file)\<close> for the directory of the script.\<close>

definition joinpath :: "string \<Rightarrow> string \<Rightarrow> string" where
  "joinpath d f = (if d = ''.'' then f else if d = ''/'' then d @ f else d @ ''/'' @ f)"

definition truthy :: "string option \<Rightarrow> bool" where
  "truthy ddl = (case ddl of None \<Rightarrow> False | Some d \<Rightarrow> d \<noteq> [])"

fun zip_loop :: "filesystem \<Rightarrow> string \<Rightarrow> string list \<Rightarrow> zip_state \<Rightarrow> py_error + zip_state" where
  "zip_loop fs script_dir [] st = Inr st"
| "zip_loop fs script_dir (table_name # rest) st =
     (let source_file = determine_source_file table_name;
          source_path = joinpath script_dir source_file
      in if fs source_path = None
         then zip_loop fs script_dir rest
                (st\<lparr>missing_tables := missing_tables st @ [table_name]\<rparr>)
         else (case extract_table_ddl fs source_path table_name of
                 Inl e \<Rightarrow> Inl e
               | Inr ddl \<Rightarrow>
                   if truthy ddl
                   then zip_loop fs script_dir rest
                          (st\<lparr>entries := entries st @ [(table_name @ ''.sql'', the ddl)],
                              extracted_count := extracted_count st + 1\<rparr>)
                   else zip_loop fs script_dir rest
                          (st\<lparr>missing_tables := missing_tables st @ [table_name]\<rparr>)))"

definition create_zip_with_ddls :: "filesystem \<Rightarrow> string \<Rightarrow> string list \<Rightarrow> py_error + zip_state" where
  "create_zip_with_ddls fs script_dir tables =
     zip_loop fs script_dir tables \<lparr>entries = [], extracted_count = 0, missing_tables = []\<rparr>"

text \<open>
  \<open>main\<close> of the extractor: the exit status, and the archive state when one is written.
  The path of \<open>table-list.txt\<close>, which \<open>pathlib\<close> computes from the place of the script,
  is a parameter.
\<close>

definition extract_main :: "filesystem \<Rightarrow> string \<Rightarrow> string \<Rightarrow> py_error + (nat \<times> zip_state option)" where
  "extract_main fs script_dir table_list_file =
     (case fs table_list_file of
        None \<Rightarrow> Inr (1, None)
      | Some text \<Rightarrow>
          (case create_zip_with_ddls fs script_dir (read_table_list text) of
             Inl e \<Rightarrow> Inl e
           | Inr st \<Rightarrow> Inr (0, Some st)))"

section \<open>\<open>generate_sql.py\<close>\<close>

definition sq :: char where
  "sq = CHR 0x27"

definition tab :: char where
  "tab = CHR 0x09"

text \<open>A value between single quotes, as the templates write it.\<close>

definition quoted :: "string \<Rightarrow> string" where
  "quoted v = [sq] @ v @ [sq]"

definition get_schema_for_table :: "string \<Rightarrow> string" where
  "get_schema_for_table table_name =
     (if startswith table_name ''kfa'' \<or> startswith table_name ''kgl''
      then ''sit_suncbs_acctdb'' else ''sit_suncbs_coredb'')"

definition delete_stmt :: "string \<Rightarrow> string \<Rightarrow> string" where
  "delete_stmt data_expr_id data_expr_grp_code =
     ''delete from kapp_data_expr_defn ''
     @ ''where lgl_pern_code = '' @ quoted ''6666'' @ '' ''
     @ ''and data_expr_id = '' @ quoted data_expr_id @ '' ''
     @ ''and data_expr_grp_code = '' @ quoted data_expr_grp_code @ '' ''
     @ ''and file_tp = '' @ quoted ''parquet'' @ '';''"

definition select_clause :: "string \<Rightarrow> string" where
  "select_clause table_name =
     ''select a.* from '' @ table_name @ '' a ''
     @ ''where a.lgl_pern_code = '' @ [sq, sq] @ ''${lgl_pern_code}'' @ [sq, sq] @ '' ''"

definition insert_stmt :: "string \<Rightarrow> string \<Rightarrow> string \<Rightarrow> string" where
  "insert_stmt data_expr_id data_expr_grp_code table_name =
     ''INSERT INTO kapp_data_expr_defn ''
     @ ''(lgl_pern_code,data_expr_id,data_expr_grp_code,data_expr_tab_nm,''
     @ ''expr_sql_sentc,wthr_rgst_tmstp,wthr_concurrent_exec,concurrent_num,''
     @ ''fld_seprtr,file_tp,file_gen_way,file_nm,file_comps_way,file_comps_type,''
     @ ''wthr_gen_succ_file,wthr_file_upld,file_local_path,file_remote_path,''
     @ ''wthr_vld,comt_info,sharding_hash_key) VALUES'' @ [nl]
     @ [tab] @ '' ('' @ quoted ''6666'' @ '','' @ quoted data_expr_id @ '',''
       @ quoted data_expr_grp_code @ '','' @ quoted table_name @ '',''
       @ quoted (select_clause table_name) @ '',''
     @ quoted ''0'' @ '','' @ quoted ''0'' @ '',5,'' @ quoted ''@|@'' @ '',''
       @ quoted ''parquet'' @ '','' @ quoted ''0'' @ '','' @ quoted table_name @ '',''
       @ quoted ''0'' @ '',NULL,'' @ quoted ''1'' @ '','' @ quoted ''1'' @ '',''
     @ quoted table_name @ '','' @ quoted table_name @ '','' @ quoted ''1''
       @ '',NULL,NULL);''"

record gen_state =
  acct_statements :: "string list"
  core_statements :: "string list"
  core_db_count :: nat
  acct_db_count :: nat

text \<open>One turn of the loop of lines 42 to 90.\<close>

definition gen_step :: "gen_state \<Rightarrow> string \<Rightarrow> gen_state" where
  "gen_step st table_name =
     (let data_expr_id = table_name;
          schema_name = get_schema_for_table table_name
      in if schema_name = ''sit_suncbs_acctdb''
         then st\<lparr>acct_statements := acct_statements st @
                    [delete_stmt data_expr_id ''acct'',
                     insert_stmt data_expr_id ''acct'' table_name, []],
                 acct_db_count := acct_db_count st + 1\<rparr>
         else st\<lparr>core_statements := core_statements st @
                    [delete_stmt data_expr_id ''core'',
                     insert_stmt data_expr_id ''core'' table_name, []],
                 core_db_count := core_db_count st + 1\<rparr>)"

fun gen_loop :: "string list \<Rightarrow> gen_state \<Rightarrow> gen_state" where
  "gen_loop [] st = st"
| "gen_loop (table_name # rest) st = gen_loop rest (gen_step st table_name)"

definition acct_header :: "nat \<Rightarrow> string" where
  "acct_header n =
     ''-- Generated SQL statements for Accounting DB data export definitions'' @ [nl]
     @ ''-- Based on table-list.txt'' @ [nl]
     @ ''-- Accounting DB (sit_suncbs_acctdb): '' @ str_nat n @ '' tables'' @ [nl, nl]"

definition core_header :: "nat \<Rightarrow> string" where
  "core_header n =
     ''-- Generated SQL statements for Core DB data export definitions'' @ [nl]
     @ ''-- Based on table-list.txt'' @ [nl]
     @ ''-- Core DB (sit_suncbs_coredb): '' @ str_nat n @ '' tables'' @ [nl, nl]"

text \<open>
  \<open>generate_sql_statements\<close> on the text of the table list: the contents written to
  \<open>acct.sql\<close> and to \<open>core.sql\<close>.
\<close>

definition generate_sql_statements :: "string \<Rightarrow> string \<times> string" where
  "generate_sql_statements text =
     (let tables = map strip (filter (\<lambda>line. strip line \<noteq> []) (file_lines text));
          st = gen_loop tables
                 \<lparr>acct_statements = [], core_statements = [], core_db_count = 0,
                  acct_db_count = 0\<rparr>
      in (acct_header (acct_db_count st) @ join_nl (acct_statements st),
          core_header (core_db_count st) @ join_nl (core_statements st)))"

text \<open>The script part: exit status 1 and no output when the table list is absent.\<close>

definition generate_main :: "filesystem \<Rightarrow> string \<Rightarrow> nat \<times> (string \<times> string) option" where
  "generate_main fs table_list_file =
     (case fs table_list_file of
        None \<Rightarrow> (1, None)
      | Some text \<Rightarrow> (0, Some (generate_sql_statements text)))"

section \<open>Notions used to state the properties\<close>

definition hdr_flags :: re_flags where
  "hdr_flags = \<lparr>ignorecase = True, multiline = True\<rparr>"

definition source_path_of :: "string \<Rightarrow> string \<Rightarrow> string" where
  "source_path_of script_dir table_name = joinpath script_dir (determine_source_file table_name)"

text \<open>The test of line 116 for one table: its source file is there and its DDL is found.\<close>

definition extracted :: "filesystem \<Rightarrow> string \<Rightarrow> string \<Rightarrow> bool" where
  "extracted fs script_dir table_name =
     (case fs (source_path_of script_dir table_name) of
        None \<Rightarrow> False
      | Some content \<Rightarrow>
          truthy (extract_from_content (source_path_of script_dir table_name) content table_name))"

text \<open>The source file of the table is there and holds a header block for it.\<close>

definition header_found :: "filesystem \<Rightarrow> string \<Rightarrow> string \<Rightarrow> bool" where
  "header_found fs script_dir table_name =
     (case fs (source_path_of script_dir table_name) of
        None \<Rightarrow> False
      | Some content \<Rightarrow>
          re_search hdr_flags (table_header_pattern table_name) content \<noteq> None)"

definition entry_of :: "filesystem \<Rightarrow> string \<Rightarrow> string \<Rightarrow> string \<times> string" where
  "entry_of fs script_dir table_name =
     (table_name @ ''.sql'',
      the (extract_from_content (source_path_of script_dir table_name)
             (the (fs (source_path_of script_dir table_name))) table_name))"

text \<open>
  The header comment of a table in a dump, as the exporting tool writes it; \<open>qual\<close> is
  the schema qualifier before the name, or empty.
\<close>

definition header_block :: "string \<Rightarrow> string \<Rightarrow> string" where
  "header_block qual name =
     ''-- '' @ dashes @ [nl] @ ''-- Table structure for '' @ qual @ name @ [nl]
     @ ''-- '' @ dashes"

text \<open>Patterns without \<open>^\<close>: their matches do not depend on the text before the start.\<close>

fun bol_free :: "rx \<Rightarrow> bool" where
  "bol_free Bol = False"
| "bol_free (Opt r) = bol_free r"
| "bol_free (Alt a b) = (bol_free a \<and> bol_free b)"
| "bol_free (Seq a b) = (bol_free a \<and> bol_free b)"
| "bol_free _ = True"

text \<open>A small dump and file system, used to run the extractor on a concrete input.\<close>

definition sample_dump :: string where
  "sample_dump =
     ''-- '' @ dashes @ [nl] @ ''-- Table structure for t'' @ [nl] @ ''-- '' @ dashes @ [nl]
     @ ''CREATE TABLE t (id int);'' @ [nl]"

definition single_file_fs :: "string \<Rightarrow> string \<Rightarrow> filesystem" where
  "single_file_fs path content = (\<lambda>p. if p = path then Some content else None)"

definition sample_fs :: filesystem where
  "sample_fs = single_file_fs ''/s/core_db.sql'' sample_dump"

text \<open>The same table with a DROP statement in lower case in its section.\<close>

definition sample_dump_with_drop :: string where
  "sample_dump_with_drop =
     header_block [] ''t'' @ [nl] @ ''drop table if exists T;'' @ [nl]
     @ ''CREATE TABLE t (id int);'' @ [nl]"

text \<open>
  Two dumps with the tables \<open>a\<close>, \<open>b\<close>, \<open>c\<close> in this order; they differ only in the
  case of the words \<open>Table structure for\<close>.
\<close>

definition exact_case_dump :: string where
  "exact_case_dump =
     ''-- '' @ dashes @ [nl] @ ''-- Table structure for a'' @ [nl] @ ''-- '' @ dashes @ [nl]
     @ ''DROP TABLE a;'' @ [nl, nl]
     @ ''-- '' @ dashes @ [nl] @ ''-- Table structure for b'' @ [nl] @ ''-- '' @ dashes @ [nl]
     @ ''DROP TABLE b;'' @ [nl, nl]
     @ ''-- '' @ dashes @ [nl] @ ''-- Table structure for c'' @ [nl] @ ''-- '' @ dashes @ [nl]
     @ ''DROP TABLE c;'' @ [nl]"

definition lower_case_dump :: string where
  "lower_case_dump =
     ''-- '' @ dashes @ [nl] @ ''-- table structure for a'' @ [nl] @ ''-- '' @ dashes @ [nl]
     @ ''DROP TABLE a;'' @ [nl, nl]
     @ ''-- '' @ dashes @ [nl] @ ''-- table structure for b'' @ [nl] @ ''-- '' @ dashes @ [nl]
     @ ''DROP TABLE b;'' @ [nl, nl]
     @ ''-- '' @ dashes @ [nl] @ ''-- table structure for c'' @ [nl] @ ''-- '' @ dashes @ [nl]
     @ ''DROP TABLE c;'' @ [nl]"

section \<open>Evaluation\<close>

lemma py_lower_Char [code]:
  "py_lower (Char b0 b1 b2 b3 b4 b5 b6 b7) =
     (if \<not> b5 \<and> b6 \<and>
         (if b7 then \<not> (b0 \<and> b1 \<and> b2 \<and> b4)
          else (b0 \<or> b1 \<or> b2 \<or> b3 \<or> b4) \<and> \<not> (b4 \<and> b3 \<and> (b2 \<or> (b1 \<and> b0))))
      then Char b0 b1 b2 b3 b4 True b6 b7
      else Char b0 b1 b2 b3 b4 b5 b6 b7)"
  by (cases b0; cases b1; cases b2; cases b3; cases b4; cases b5; cases b6; cases b7;
      simp add: py_lower_def; code_simp)

lemma sample_source_path: "source_path_of ''/s'' ''u'' = ''/s/core_db.sql''"
  by code_simp

lemma sample_no_header_u: "re_search hdr_flags (table_header_pattern ''u'') sample_dump = None"
  by code_simp

lemma sample_found: "header_found sample_fs ''/s'' ''t''"
  by code_simp

lemma sample_not_found: "\<not> header_found sample_fs ''/s'' ''u''"
  by code_simp

lemma sample_no_file: "\<not> header_found sample_fs ''/s'' ''kfa_x''"
  by code_simp


lemma not_space_dash: "\<not> is_space (CHR ''-'')"
  by code_simp

section \<open>The table classifier\<close>

lemma startswith_prefix: "startswith s p \<longleftrightarrow> prefix p s"
  unfolding startswith_def prefix_def
  by (metis append_take_drop_id append_eq_conv_conj)

text \<open>
  Claim C5: every table name is classified, by both scripts, into exactly one of two
  groups: the accounting group (\<open>acct_db.sql\<close>, \<open>sit_suncbs_acctdb\<close>) when it starts
  with \<open>kfa\<close> or \<open>kgl\<close> in this exact case, the core group (\<open>core_db.sql\<close>,
  \<open>sit_suncbs_coredb\<close>) otherwise.
\<close>

theorem classification_by_prefix:
  "determine_source_file n =
     (if prefix ''kfa'' n \<or> prefix ''kgl'' n then ''acct_db.sql'' else ''core_db.sql'')
   \<and> get_schema_for_table n =
     (if prefix ''kfa'' n \<or> prefix ''kgl'' n then ''sit_suncbs_acctdb''
      else ''sit_suncbs_coredb'')"
  by (simp add: determine_source_file_def get_schema_for_table_def startswith_prefix)

theorem classification_by_prefix_witness:
  "determine_source_file ''kfab_bal'' = ''acct_db.sql''
   \<and> get_schema_for_table ''kgl_acct'' = ''sit_suncbs_acctdb''
   \<and> determine_source_file ''KFAB_BAL'' = ''core_db.sql''
   \<and> get_schema_for_table ''cust_info'' = ''sit_suncbs_coredb''"
  using classification_by_prefix [of "''kfab_bal''"] classification_by_prefix [of "''kgl_acct''"]
    classification_by_prefix [of "''KFAB_BAL''"] classification_by_prefix [of "''cust_info''"]
  by simp

section \<open>Reading the table list\<close>

lemma concat_lines_acc: "concat (lines_acc cur cs) = cur @ cs"
  by (induction cs arbitrary: cur) auto

lemma strip_blank:
  assumes "\<forall>c \<in> set s. is_space c"
  shows "strip s = []"
proof -
  from assms have d: "dropWhile is_space s = []"
    by simp
  show ?thesis
    unfolding strip_def d by simp
qed

lemma blank_lines:
  assumes "\<forall>c \<in> set listing. is_space c"
  shows "filter (\<lambda>line. strip line \<noteq> []) (file_lines listing) = []"
proof -
  have "strip line = []" if "line \<in> set (file_lines listing)" for line
  proof -
    have "set line \<subseteq> set (concat (file_lines listing))"
      using that by auto
    then have "set line \<subseteq> set listing"
      by (simp add: file_lines_def concat_lines_acc)
    with assms show ?thesis
      by (intro strip_blank) auto
  qed
  then show ?thesis
    by (simp add: filter_empty_conv)
qed





lemma str_nat_0: "str_nat 0 = ''0''"
  by code_simp

text \<open>
  Claim C9: when \<open>table-list.txt\<close> is empty or holds only white space, the parsed table
  list is empty, the extractor ends with status 0 and an archive without members, and
  the generator ends with status 0 and writes to \<open>acct.sql\<close> and \<open>core.sql\<close> their header
  comments, with the count 0, and no statement.
\<close>

theorem blank_table_list:
  assumes "\<forall>c \<in> set listing. is_space c" and "fs p = Some listing"
  shows "read_table_list listing = []
     \<and> extract_main fs d p =
          Inr (0, Some \<lparr>entries = [], extracted_count = 0, missing_tables = []\<rparr>)
     \<and> generate_main fs p =
          (0, Some (''-- Generated SQL statements for Accounting DB data export definitions'' @ [nl]
                    @ ''-- Based on table-list.txt'' @ [nl]
                    @ ''-- Accounting DB (sit_suncbs_acctdb): 0 tables'' @ [nl, nl],
                    ''-- Generated SQL statements for Core DB data export definitions'' @ [nl]
                    @ ''-- Based on table-list.txt'' @ [nl]
                    @ ''-- Core DB (sit_suncbs_coredb): 0 tables'' @ [nl, nl]))"
  using assms blank_lines [of listing]
  by (simp add: read_table_list_def extract_main_def create_zip_with_ddls_def
      generate_main_def generate_sql_statements_def acct_header_def core_header_def str_nat_0)

theorem blank_table_list_witness:
  "read_table_list ('' '' @ [nl, tab, nl]) = []
   \<and> extract_main (\<lambda>p. if p = ''/table-list.txt'' then Some ('' '' @ [nl, tab, nl]) else None)
        ''/s'' ''/table-list.txt'' =
          Inr (0, Some \<lparr>entries = [], extracted_count = 0, missing_tables = []\<rparr>)"
proof -
  have b: "\<forall>c \<in> set ('' '' @ [nl, tab, nl]). is_space c"
    by code_simp
  show ?thesis
    using blank_table_list [of "'' '' @ [nl, tab, nl]"
        "\<lambda>p. if p = ''/table-list.txt'' then Some ('' '' @ [nl, tab, nl]) else None"
        "''/table-list.txt''" "''/s''"] b
    by simp
qed

section \<open>The statement generator\<close>

lemma gen_loop_closed:
  "gen_loop ts st =
     st\<lparr>acct_statements := acct_statements st @
            concat (map (\<lambda>t. [delete_stmt t ''acct'', insert_stmt t ''acct'' t, []])
                      (filter (\<lambda>t. prefix ''kfa'' t \<or> prefix ''kgl'' t) ts)),
         core_statements := core_statements st @
            concat (map (\<lambda>t. [delete_stmt t ''core'', insert_stmt t ''core'' t, []])
                      (filter (\<lambda>t. \<not> (prefix ''kfa'' t \<or> prefix ''kgl'' t)) ts)),
         core_db_count := core_db_count st
            + length (filter (\<lambda>t. \<not> (prefix ''kfa'' t \<or> prefix ''kgl'' t)) ts),
         acct_db_count := acct_db_count st
            + length (filter (\<lambda>t. prefix ''kfa'' t \<or> prefix ''kgl'' t) ts)\<rparr>"
proof (induction ts arbitrary: st)
  case Nil
  show ?case by simp
next
  case (Cons t ts)
  show ?case
    by (simp add: Cons.IH gen_step_def get_schema_for_table_def startswith_prefix Let_def)
qed

lemma generate_closed:
  "generate_sql_statements listing =
     (let acct = filter (\<lambda>t. prefix ''kfa'' t \<or> prefix ''kgl'' t) (read_table_list listing);
          core = filter (\<lambda>t. \<not> (prefix ''kfa'' t \<or> prefix ''kgl'' t)) (read_table_list listing)
      in (acct_header (length acct) @ join_nl (concat
            (map (\<lambda>t. [delete_stmt t ''acct'', insert_stmt t ''acct'' t, []]) acct)),
          core_header (length core) @ join_nl (concat
            (map (\<lambda>t. [delete_stmt t ''core'', insert_stmt t ''core'' t, []]) core))))"
  by (simp add: generate_sql_statements_def read_table_list_def gen_loop_closed Let_def)

text \<open>
  Claim C8: for the table list \<open>kfab_bal\<close>, \<open>cust_info\<close> the generator writes to
  \<open>acct.sql\<close> the header comment with the count 1 and the DELETE/INSERT pair of
  \<open>kfab_bal\<close> with the group code \<open>acct\<close>, and to \<open>core.sql\<close> the header comment with the
  count 1 and the pair of \<open>cust_info\<close> with the group code \<open>core\<close>.  For every table
  list, each file holds the pairs of its group in the order of the table list, and the
  count in its header is the number of tables of its group.
\<close>

theorem generator_example_and_order:
  "generate_sql_statements (''kfab_bal'' @ [nl] @ ''cust_info'' @ [nl]) =
     (''-- Generated SQL statements for Accounting DB data export definitions'' @ [nl]
      @ ''-- Based on table-list.txt'' @ [nl]
      @ ''-- Accounting DB (sit_suncbs_acctdb): 1 tables'' @ [nl, nl]
      @ ''delete from kapp_data_expr_defn where lgl_pern_code = '6666' and data_expr_id = 'kfab_bal' and data_expr_grp_code = 'acct' and file_tp = 'parquet';'' @ [nl]
      @ ''INSERT INTO kapp_data_expr_defn (lgl_pern_code,data_expr_id,data_expr_grp_code,data_expr_tab_nm,expr_sql_sentc,wthr_rgst_tmstp,wthr_concurrent_exec,concurrent_num,fld_seprtr,file_tp,file_gen_way,file_nm,file_comps_way,file_comps_type,wthr_gen_succ_file,wthr_file_upld,file_local_path,file_remote_path,wthr_vld,comt_info,sharding_hash_key) VALUES'' @ [nl]
      @ [tab] @ '' ('6666','kfab_bal','acct','kfab_bal','select a.* from kfab_bal a where a.lgl_pern_code = '' @ [sq, sq] @ ''${lgl_pern_code}'' @ [sq, sq] @ '' ','0','0',5,'@|@','parquet','0','kfab_bal','0',NULL,'1','1','kfab_bal','kfab_bal','1',NULL,NULL);'' @ [nl],
      ''-- Generated SQL statements for Core DB data export definitions'' @ [nl]
      @ ''-- Based on table-list.txt'' @ [nl]
      @ ''-- Core DB (sit_suncbs_coredb): 1 tables'' @ [nl, nl]
      @ ''delete from kapp_data_expr_defn where lgl_pern_code = '6666' and data_expr_id = 'cust_info' and data_expr_grp_code = 'core' and file_tp = 'parquet';'' @ [nl]
      @ ''INSERT INTO kapp_data_expr_defn (lgl_pern_code,data_expr_id,data_expr_grp_code,data_expr_tab_nm,expr_sql_sentc,wthr_rgst_tmstp,wthr_concurrent_exec,concurrent_num,fld_seprtr,file_tp,file_gen_way,file_nm,file_comps_way,file_comps_type,wthr_gen_succ_file,wthr_file_upld,file_local_path,file_remote_path,wthr_vld,comt_info,sharding_hash_key) VALUES'' @ [nl]
      @ [tab] @ '' ('6666','cust_info','core','cust_info','select a.* from cust_info a where a.lgl_pern_code = '' @ [sq, sq] @ ''${lgl_pern_code}'' @ [sq, sq] @ '' ','0','0',5,'@|@','parquet','0','cust_info','0',NULL,'1','1','cust_info','cust_info','1',NULL,NULL);'' @ [nl])
   \<and> (\<forall>listing. generate_sql_statements listing =
         (let acct = filter (\<lambda>t. prefix ''kfa'' t \<or> prefix ''kgl'' t) (read_table_list listing);
              core = filter (\<lambda>t. \<not> (prefix ''kfa'' t \<or> prefix ''kgl'' t))
                       (read_table_list listing)
          in (acct_header (length acct) @ join_nl (concat
                (map (\<lambda>t. [delete_stmt t ''acct'', insert_stmt t ''acct'' t, []]) acct)),
              core_header (length core) @ join_nl (concat
                (map (\<lambda>t. [delete_stmt t ''core'', insert_stmt t ''core'' t, []]) core)))))"
  by (intro conjI allI generate_closed) code_simp

lemma read_three: "read_table_list (''kgl_a'' @ [nl] @ '' b '' @ [nl, nl] @ ''kfa_c'')
  = [''kgl_a'', ''b'', ''kfa_c'']"
  by code_simp

theorem generator_example_and_order_witness:
  "generate_sql_statements (''kgl_a'' @ [nl] @ '' b '' @ [nl, nl] @ ''kfa_c'') =
     (acct_header 2 @ join_nl
        [delete_stmt ''kgl_a'' ''acct'', insert_stmt ''kgl_a'' ''acct'' ''kgl_a'', [],
         delete_stmt ''kfa_c'' ''acct'', insert_stmt ''kfa_c'' ''acct'' ''kfa_c'', []],
      core_header 1 @ join_nl
        [delete_stmt ''b'' ''core'', insert_stmt ''b'' ''core'' ''b'', []])"
  using generator_example_and_order
    [THEN conjunct2, THEN spec, of "''kgl_a'' @ [nl] @ '' b '' @ [nl, nl] @ ''kfa_c''",
     unfolded read_three]
  by (simp add: Let_def numeral_2_eq_2)

section \<open>Facts about the matcher\<close>

lemma lit_eq_True: "lit_eq True a b \<longleftrightarrow> map py_lower a = map py_lower b"
  by (induction True a b rule: lit_eq.induct) (auto simp add: char_eq_def)

lemma lit_eq_False: "lit_eq False a b \<longleftrightarrow> a = b"
  by (induction False a b rule: lit_eq.induct) (auto simp add: char_eq_def)

lemma in_star_ends:
  "j \<in> set (star_ends P s i) \<longleftrightarrow> i \<le> j \<and> j \<le> i + length (takeWhile P (drop i s))"
  by (auto simp add: star_ends_def)

lemma find_upt_None: "List.find P [0 ..< n] = None \<longleftrightarrow> (\<forall>i < n. \<not> P i)"
  by (auto simp add: find_None_iff)

lemma find_upt_Some:
  "List.find P [0 ..< n] = Some i \<longleftrightarrow> i < n \<and> P i \<and> (\<forall>k < i. \<not> P k)"
proof -
  have "List.find P [0 ..< n] = Some i \<longleftrightarrow>
      (\<exists>j < n. P ([0 ..< n] ! j) \<and> i = [0 ..< n] ! j \<and> (\<forall>k < j. \<not> P ([0 ..< n] ! k)))"
    by (simp add: find_Some_iff)
  also have "\<dots> \<longleftrightarrow> i < n \<and> P i \<and> (\<forall>k < i. \<not> P k)"
    by auto
  finally show ?thesis .
qed

lemma re_search_None:
  "re_search fl r s = None \<longleftrightarrow> (\<forall>i \<le> length s. rx_match fl s r i = [])"
proof (cases "List.find (\<lambda>i. rx_match fl s r i \<noteq> []) [0 ..< Suc (length s)]")
  case None
  then have "\<forall>i < Suc (length s). \<not> rx_match fl s r i \<noteq> []"
    by (simp add: find_upt_None del: upt_Suc)
  then have "\<forall>i \<le> length s. rx_match fl s r i = []"
    by (simp add: less_Suc_eq_le)
  with None show ?thesis
    unfolding re_search_def by simp
next
  case (Some i)
  then have "i < Suc (length s) \<and> rx_match fl s r i \<noteq> []"
    by (simp add: find_upt_Some del: upt_Suc)
  then have "\<not> (\<forall>i \<le> length s. rx_match fl s r i = [])"
    by (auto simp add: less_Suc_eq_le)
  with Some show ?thesis
    unfolding re_search_def by simp
qed

lemma re_search_SomeD:
  assumes "re_search fl r s = Some m"
  shows "fst m \<le> length s \<and> rx_match fl s r (fst m) \<noteq> []
     \<and> snd m = hd (rx_match fl s r (fst m))
     \<and> (\<forall>k < fst m. rx_match fl s r k = [])"
proof (cases "List.find (\<lambda>i. rx_match fl s r i \<noteq> []) [0 ..< Suc (length s)]")
  case None
  with assms show ?thesis
    unfolding re_search_def by simp
next
  case (Some i)
  then have i: "i < Suc (length s) \<and> rx_match fl s r i \<noteq> [] \<and> (\<forall>k < i. \<not> rx_match fl s r k \<noteq> [])"
    by (simp add: find_upt_Some del: upt_Suc)
  from Some assms have m: "m = (i, hd (rx_match fl s r i))"
    unfolding re_search_def by simp
  from i show ?thesis
    unfolding m by (simp add: less_Suc_eq_le)
qed

lemma re_search_SomeI:
  assumes "i \<le> length s" and "rx_match fl s r i \<noteq> []"
  shows "re_search fl r s \<noteq> None"
  using assms by (auto simp add: re_search_None)

lemma rx_match_Seq_nonempty:
  "rx_match fl s (Seq a b) i \<noteq> [] \<longleftrightarrow> (\<exists>k \<in> set (rx_match fl s a i). rx_match fl s b k \<noteq> [])"
  by auto


lemma map_add_upt': "map ((+) n) [i ..< j] = [n + i ..< n + j]"
  by (induction j) auto

lemma rx_match_shift:
  "bol_free r \<Longrightarrow>
     rx_match fl (a @ s) r (length a + i) = map ((+) (length a)) (rx_match fl s r i)"
proof (induction r arbitrary: i)
  case (Lit l)
  show ?case by (simp add: add.assoc)
next
  case Bol
  then show ?case by simp
next
  case Space_star
  show ?case
    by (simp add: star_ends_def rev_map [symmetric] map_add_upt' add.assoc)
next
  case Any_star
  show ?case
    by (simp add: star_ends_def rev_map [symmetric] map_add_upt' add.assoc)
next
  case (Opt r)
  then show ?case by simp
next
  case (Alt r1 r2)
  then show ?case by simp
next
  case (Seq r1 r2)
  then show ?case
    by (simp add: map_concat comp_def)
qed

section \<open>A section that already has its DROP statement\<close>

lemma rx_match_Lit_here:
  assumes "lit_eq (ignorecase fl) a l" and "length a = length l"
  shows "rx_match fl (pre @ a @ post) (Lit l) (length pre) = [length pre + length l]"
  using assms by simp

lemma keyword_then_name_found:
  assumes "ignorecase fl"
    and "map py_lower kw = map py_lower K"
    and "map py_lower nm = map py_lower t"
    and "nl \<notin> set mid"
  shows "rx_match fl (pre @ kw @ mid @ nm @ post) (Seq (Lit K) (Seq Any_star (Lit t)))
           (length pre) \<noteq> []"
proof -
  let ?s = "pre @ kw @ mid @ nm @ post"
  let ?i = "length pre"
  have lk: "length kw = length K"
    using arg_cong [OF assms(2), of length] by simp
  have ln: "length nm = length t"
    using arg_cong [OF assms(3), of length] by simp
  have a: "rx_match fl ?s (Lit K) ?i = [?i + length K]"
    using assms(1,2) lk by (intro rx_match_Lit_here) (simp_all add: lit_eq_True)
  have "takeWhile (\<lambda>c. c \<noteq> nl) (mid @ nm @ post) = mid @ takeWhile (\<lambda>c. c \<noteq> nl) (nm @ post)"
    using assms(4) by (intro takeWhile_append2) auto
  then have b: "?i + length K + length mid \<in> set (rx_match fl ?s Any_star (?i + length K))"
    using lk by (simp add: in_star_ends)
  have "rx_match fl ((pre @ kw @ mid) @ nm @ post) (Lit t) (length (pre @ kw @ mid))
      = [length (pre @ kw @ mid) + length t]"
    using assms(1,3) ln by (intro rx_match_Lit_here) (simp_all add: lit_eq_True)
  then have c: "rx_match fl ?s (Lit t) (?i + length K + length mid) \<noteq> []"
    using lk by (simp add: add.assoc)
  from b c have "rx_match fl ?s (Seq Any_star (Lit t)) (?i + length K) \<noteq> []"
    unfolding rx_match_Seq_nonempty by blast
  with a show ?thesis
    unfolding rx_match_Seq_nonempty by simp
qed

lemma drop_pattern_found:
  assumes "map py_lower kw = map py_lower ''DROP TABLE''"
    and "map py_lower nm = map py_lower t"
    and "nl \<notin> set mid"
  shows "re_search \<lparr>ignorecase = True, multiline = False\<rparr> (drop_table_pattern t)
           (pre @ kw @ mid @ nm @ post) \<noteq> None"
proof -
  have "rx_match \<lparr>ignorecase = True, multiline = False\<rparr> (pre @ kw @ mid @ nm @ post)
          (drop_table_pattern t) (length pre) \<noteq> []"
    unfolding drop_table_pattern_def seqs.simps
    using assms by (intro keyword_then_name_found) simp_all
  then show ?thesis
    by (intro re_search_SomeI [of "length pre"]) simp_all
qed

text \<open>
  Claim C3: when the trimmed section of the table holds, on one line, the words
  \<open>DROP TABLE\<close> and further on the table name, both in any letter case,
  \<open>extract_table_ddl\<close> returns the trimmed section as it is: it adds no DROP statement.
\<close>

theorem existing_drop_kept:
  assumes "fs sql_file = Some content"
    and "re_search hdr_flags (table_header_pattern t) content = Some m"
    and "ddl_section content m = pre @ kw @ mid @ nm @ post"
    and "map py_lower kw = map py_lower ''DROP TABLE''"
    and "map py_lower nm = map py_lower t"
    and "nl \<notin> set mid"
  shows "extract_table_ddl fs sql_file t = Inr (Some (ddl_section content m))"
proof -
  have "re_search \<lparr>ignorecase = True, multiline = False\<rparr> (drop_table_pattern t)
           (ddl_section content m) \<noteq> None"
    unfolding assms(3) using assms(4-6) by (rule drop_pattern_found)
  then obtain m' where "re_search \<lparr>ignorecase = True, multiline = False\<rparr> (drop_table_pattern t)
           (ddl_section content m) = Some m'"
    by blast
  then have "add_drop sql_file t (ddl_section content m) = ddl_section content m"
    by (simp add: add_drop_def)
  with assms(1,2) show ?thesis
    by (simp add: extract_table_ddl_def extract_from_content_def hdr_flags_def)
qed

lemma drop_sample_file:
  "single_file_fs ''/s/core_db.sql'' sample_dump_with_drop ''/s/core_db.sql''
     = Some sample_dump_with_drop"
  by (simp add: single_file_fs_def)

lemma drop_sample_header: "re_search hdr_flags (table_header_pattern ''t'') sample_dump_with_drop = Some (0, 88)"
  by code_simp

lemma drop_sample_section: "ddl_section sample_dump_with_drop (0, 88) =
   (header_block [] ''t'' @ [nl]) @ ''drop table'' @ '' if exists '' @ ''T''
     @ ('';'' @ [nl] @ ''CREATE TABLE t (id int);'')"
  by code_simp

lemma drop_sample_keyword: "map py_lower ''drop table'' = map py_lower ''DROP TABLE''"
  by code_simp

lemma drop_sample_name: "map py_lower ''T'' = map py_lower ''t''"
  by code_simp

lemma drop_sample_gap: "nl \<notin> set '' if exists ''"
  by code_simp

theorem existing_drop_kept_witness:
  "extract_table_ddl (single_file_fs ''/s/core_db.sql'' sample_dump_with_drop)
     ''/s/core_db.sql'' ''t'' =
     Inr (Some (header_block [] ''t'' @ [nl] @ ''drop table if exists T;'' @ [nl]
                @ ''CREATE TABLE t (id int);''))"
proof -
  have "extract_table_ddl (single_file_fs ''/s/core_db.sql'' sample_dump_with_drop)
     ''/s/core_db.sql'' ''t'' = Inr (Some (ddl_section sample_dump_with_drop (0, 88)))"
    using drop_sample_file drop_sample_header drop_sample_section drop_sample_keyword
      drop_sample_name drop_sample_gap
    by (rule existing_drop_kept)
  then show ?thesis
    unfolding drop_sample_section by simp
qed

section \<open>The header pattern and the name it matches\<close>

lemma bol_then:
  assumes "bol_free r" and "rx_match fl (pre @ s) (Seq Bol r) (length pre) \<noteq> []"
  shows "rx_match fl s r 0 \<noteq> []"
proof -
  from assms(2) have "rx_match fl (pre @ s) r (length pre + 0) \<noteq> []"
    by (auto split: if_splits)
  then show ?thesis
    unfolding rx_match_shift [OF assms(1)] by simp
qed

lemma peel_lit:
  assumes "bol_free r" and "length a = length l"
  shows "rx_match fl (a @ s) (Seq (Lit l) r) 0 \<noteq> [] \<longleftrightarrow>
     lit_eq (ignorecase fl) a l \<and> rx_match fl s r 0 \<noteq> []"
proof -
  have "rx_match fl (a @ s) r (length a + 0) = map ((+) (length a)) (rx_match fl s r 0)"
    using assms(1) by (rule rx_match_shift)
  then show ?thesis
    using assms(2) by auto
qed

lemma peel_lit_any:
  assumes "bol_free r"
  shows "rx_match fl s (Seq (Lit l) r) 0 \<noteq> [] \<longleftrightarrow>
     length l \<le> length s \<and> lit_eq (ignorecase fl) (take (length l) s) l
       \<and> rx_match fl (drop (length l) s) r 0 \<noteq> []"
proof (cases "length l \<le> length s")
  case True
  then have len: "length (take (length l) s) = length l"
    by simp
  have "rx_match fl (take (length l) s @ drop (length l) s) (Seq (Lit l) r) 0 \<noteq> [] \<longleftrightarrow>
     lit_eq (ignorecase fl) (take (length l) s) l \<and> rx_match fl (drop (length l) s) r 0 \<noteq> []"
    using assms len by (rule peel_lit)
  with True show ?thesis by simp
next
  case False
  then show ?thesis by simp
qed











lemma lit_eq_refl: "lit_eq ic a a"
  by (induction a) (simp_all add: char_eq_def)









section \<open>The loop of \<open>create_zip_with_ddls\<close>\<close>

text \<open>What \<open>extract_table_ddl\<close> returns for a header it has found is not empty.\<close>

lemma rx_match_ge: "j \<in> set (rx_match fl s r i) \<Longrightarrow> i \<le> j"
proof (induction r arbitrary: i j)
  case (Seq r1 r2)
  from Seq.prems obtain k where k: "k \<in> set (rx_match fl s r1 i)"
    and j: "j \<in> set (rx_match fl s r2 k)"
    by auto
  from k have "i \<le> k" by (rule Seq.IH(1))
  moreover from j have "k \<le> j" by (rule Seq.IH(2))
  ultimately show ?case by simp
qed (auto simp add: in_star_ends split: if_splits)

lemma py_lower_eq_dash: "py_lower c = CHR ''-'' \<longleftrightarrow> c = CHR ''-''"
  by (cases c) (auto simp add: py_lower_Char)

lemma strip_keeps_head:
  assumes "\<not> is_space x"
  shows "\<exists>zs. strip (x # ys) = x # zs"
proof -
  have "dropWhile is_space (rev ys @ [x]) = dropWhile is_space (rev ys) @ [x]"
    using assms by (simp add: dropWhile_append3)
  then show ?thesis
    using assms by (simp add: strip_def)
qed

lemma header_match_start:
  assumes "rx_match hdr_flags content (table_header_pattern t) i \<noteq> []" and "i \<le> length content"
  shows "\<exists>xs. drop i content = CHR ''-'' # xs"
proof -
  define D where "D = ''- '' @ dashes"
  define r where "r = seqs [Space_star, Lit [nl],
      Lit ''-- Table structure for '',
      Opt (seqs [Lit ''uat_suncbs_'', Alt (Lit ''acct'') (Lit ''core''), Lit ''db.'']),
      Lit t, Space_star, Lit [nl], Lit (''-- '' @ dashes)]"
  have pat: "table_header_pattern t = Seq Bol (Seq (Lit (CHR ''-'' # D)) r)"
    by (simp add: table_header_pattern_def D_def r_def)
  have bf: "bol_free r"
    by (simp add: r_def)
  have l: "length (take i content) = i"
    using assms(2) by simp
  have b0: "bol_free (Seq (Lit (CHR ''-'' # D)) r)"
    using bf by simp
  have "rx_match hdr_flags (take i content @ drop i content) (Seq Bol (Seq (Lit (CHR ''-'' # D)) r))
      (length (take i content)) \<noteq> []"
    using assms(1) unfolding pat l by (simp del: rx_match.simps)
  then have "rx_match hdr_flags (drop i content) (Seq (Lit (CHR ''-'' # D)) r) 0 \<noteq> []"
    using b0 by (intro bol_then)
  then have "lit_eq (ignorecase hdr_flags) (take (length (CHR ''-'' # D)) (drop i content)) (CHR ''-'' # D)"
    unfolding peel_lit_any [OF bf] by blast
  then obtain x xs where d: "drop i content = x # xs" and "char_eq True x (CHR ''-'')"
    by (cases "drop i content") (auto simp add: hdr_flags_def split: if_splits)
  then have "py_lower x = py_lower (CHR ''-'')"
    by (simp add: char_eq_def)
  moreover have "py_lower (CHR ''-'') = CHR ''-''"
    by code_simp
  ultimately have "x = CHR ''-''"
    by (simp add: py_lower_eq_dash)
  with d show "\<exists>xs. drop i content = CHR ''-'' # xs"
    by simp
qed

lemma header_match_end:
  assumes "j \<in> set (rx_match hdr_flags content (table_header_pattern t) i)"
  shows "i < j"
proof -
  define D where "D = ''- '' @ dashes"
  define r where "r = seqs [Space_star, Lit [nl],
      Lit ''-- Table structure for '',
      Opt (seqs [Lit ''uat_suncbs_'', Alt (Lit ''acct'') (Lit ''core''), Lit ''db.'']),
      Lit t, Space_star, Lit [nl], Lit (''-- '' @ dashes)]"
  have pat: "table_header_pattern t = Seq Bol (Seq (Lit (CHR ''-'' # D)) r)"
    by (simp add: table_header_pattern_def D_def r_def)
  from assms obtain k where "k \<in> set (rx_match hdr_flags content (Lit (CHR ''-'' # D)) i)"
    and "j \<in> set (rx_match hdr_flags content r k)"
    unfolding pat by (auto split: if_splits)
  then have "i < k" and "k \<le> j"
    by (auto split: if_splits dest: rx_match_ge)
  then show "i < j" by simp
qed

lemma section_not_empty:
  assumes "re_search hdr_flags (table_header_pattern t) content = Some m"
  shows "\<exists>xs. ddl_section content m = CHR ''-'' # xs"
proof -
  from re_search_SomeD [OF assms]
  have le: "fst m \<le> length content"
    and ne: "rx_match hdr_flags content (table_header_pattern t) (fst m) \<noteq> []"
    and e: "snd m = hd (rx_match hdr_flags content (table_header_pattern t) (fst m))"
    by simp_all
  from ne e have "snd m \<in> set (rx_match hdr_flags content (table_header_pattern t) (fst m))"
    by simp
  then have lt: "fst m < snd m"
    by (rule header_match_end)
  from ne le obtain xs where d: "drop (fst m) content = CHR ''-'' # xs"
    using header_match_start by blast
  from d have "fst m < length content"
    by (metis drop_all le list.distinct(1) nat_less_le)
  define end_pos where "end_pos =
      (case re_search \<lparr>ignorecase = False, multiline = True\<rparr> next_table_pattern
                            (drop (snd m) content) of
                       Some nm \<Rightarrow> snd m + fst nm
                     | None \<Rightarrow> length content)"
  have "fst m < end_pos"
    using lt \<open>fst m < length content\<close> by (simp add: end_pos_def split: option.splits)
  then obtain n where n: "end_pos - fst m = Suc n"
    by (metis Suc_diff_Suc)
  have "ddl_section content m = strip (take (end_pos - fst m) (drop (fst m) content))"
    by (simp add: ddl_section_def end_pos_def Let_def)
  also have "\<dots> = strip (CHR ''-'' # take n xs)"
    unfolding d n by simp
  finally show ?thesis
    using strip_keeps_head [OF not_space_dash] by metis
qed

lemma add_drop_not_empty: "ddl \<noteq> [] \<Longrightarrow> add_drop sql_file t ddl \<noteq> []"
  by (simp add: add_drop_def Let_def drop_statement_def)

lemma extract_not_empty:
  assumes "extract_from_content sql_file content t = Some ddl"
  shows "ddl \<noteq> []"
proof -
  from assms obtain m where m: "re_search hdr_flags (table_header_pattern t) content = Some m"
    and ddl: "ddl = add_drop sql_file t (ddl_section content m)"
    by (auto simp add: extract_from_content_def hdr_flags_def split: option.splits)
  from section_not_empty [OF m] have "ddl_section content m \<noteq> []"
    by auto
  then show ?thesis
    unfolding ddl by (rule add_drop_not_empty)
qed

lemma extracted_iff_header_found: "extracted fs d t \<longleftrightarrow> header_found fs d t"
proof (cases "fs (source_path_of d t)")
  case None
  then show ?thesis
    by (simp add: extracted_def header_found_def)
next
  case (Some content)
  show ?thesis
  proof (cases "extract_from_content (source_path_of d t) content t")
    case None
    with Some show ?thesis
      by (simp add: extracted_def header_found_def truthy_def extract_from_content_def
          hdr_flags_def split: option.splits)
  next
    case (Some ddl) note S = this
    then have "ddl \<noteq> []"
      by (rule extract_not_empty)
    with S \<open>fs (source_path_of d t) = Some content\<close> show ?thesis
      by (auto simp add: extracted_def header_found_def truthy_def extract_from_content_def
          hdr_flags_def split: option.splits)
  qed
qed


lemma zip_loop_closed:
  "zip_loop fs d ts st =
     Inr (st\<lparr>entries := entries st @ map (entry_of fs d) (filter (extracted fs d) ts),
            extracted_count := extracted_count st + length (filter (extracted fs d) ts),
            missing_tables := missing_tables st @ filter (\<lambda>t. \<not> extracted fs d t) ts\<rparr>)"
proof (induction ts arbitrary: st)
  case Nil
  show ?case by simp
next
  case (Cons t ts)
  show ?case
  proof (cases "fs (source_path_of d t)")
    case None
    then have "\<not> extracted fs d t" by (simp add: extracted_def)
    with None show ?thesis
      by (simp add: Cons.IH source_path_of_def Let_def)
  next
    case (Some content)
    show ?thesis
    proof (cases "extracted fs d t")
      case True
      with Some show ?thesis
        by (simp add: Cons.IH source_path_of_def Let_def extracted_def entry_of_def
            extract_table_ddl_def)
    next
      case False
      with Some show ?thesis
        by (simp add: Cons.IH source_path_of_def Let_def extracted_def extract_table_ddl_def)
    qed
  qed
qed

lemma create_zip_closed:
  "create_zip_with_ddls fs d tables =
     Inr \<lparr>entries = map (entry_of fs d) (filter (extracted fs d) tables),
          extracted_count = length (filter (extracted fs d) tables),
          missing_tables = filter (\<lambda>t. \<not> extracted fs d t) tables\<rparr>"
  by (simp add: create_zip_with_ddls_def zip_loop_closed)

lemma entry_name: "fst (entry_of fs d t) = t @ ''.sql''"
  by (simp add: entry_of_def)

lemma count_list_filter:
  "count_list (filter P xs) x = (if P x then count_list xs x else 0)"
  by (induction xs) auto

lemma create_zip_result:
  "create_zip_with_ddls fs d tables =
     Inr \<lparr>entries = map (entry_of fs d) (filter (header_found fs d) tables),
          extracted_count = length (filter (header_found fs d) tables),
          missing_tables = filter (\<lambda>t. \<not> header_found fs d t) tables\<rparr>"
proof -
  have "extracted fs d = header_found fs d"
    by (rule ext) (rule extracted_iff_header_found)
  then show ?thesis
    by (simp add: create_zip_closed)
qed

text \<open>
  Claim C10: for every table list the run ends normally, the number of extracted tables
  plus the length of the missing list is the number of requested tables, the archive
  has one member \<open><table>.sql\<close> for each requested table whose source file has a header
  for it and no other, the other requested tables make up the missing list, and a
  table whose source dump file does not exist is among them.
\<close>

theorem extraction_conservation:
  "\<exists>st. create_zip_with_ddls fs d tables = Inr st
     \<and> extracted_count st + length (missing_tables st) = length tables
     \<and> length (entries st) = extracted_count st
     \<and> map fst (entries st) = map (\<lambda>t. t @ ''.sql'') (filter (header_found fs d) tables)
     \<and> missing_tables st = filter (\<lambda>t. \<not> header_found fs d t) tables
     \<and> (\<forall>t \<in> set tables. fs (source_path_of d t) = None \<longrightarrow> t \<in> set (missing_tables st))"
proof -
  have len: "length (filter (header_found fs d) tables)
       + length (filter (\<lambda>t. \<not> header_found fs d t) tables) = length tables"
    by (rule sum_length_filter_compl)
  have miss: "\<forall>t \<in> set tables. fs (source_path_of d t) = None
       \<longrightarrow> t \<in> set (filter (\<lambda>t. \<not> header_found fs d t) tables)"
    by (simp add: header_found_def)
  show ?thesis
    using len miss by (simp add: create_zip_result entry_name comp_def)
qed

theorem extraction_conservation_witness:
  "\<exists>st. create_zip_with_ddls sample_fs ''/s'' [''t'', ''kfa_x'', ''u''] = Inr st
     \<and> extracted_count st = 1 \<and> missing_tables st = [''kfa_x'', ''u'']
     \<and> map fst (entries st) = [''t.sql'']"
  using extraction_conservation [of sample_fs "''/s''" "[''t'', ''kfa_x'', ''u'']"]
    sample_found sample_not_found sample_no_file
  by (auto simp add: create_zip_result)

text \<open>
  Claim C6, as the code has it: when the source file of a requested table has no header
  for it, \<open>extract_table_ddl\<close> returns \<open>None\<close>, the archive gets no member for the
  table, the missing list holds the name once for each time the table list holds it
  (so exactly once when it is requested once), and the other tables are processed as
  if the table had not been requested.
\<close>

theorem missing_table_recorded:
  assumes "fs (source_path_of d t) = Some content"
    and "re_search hdr_flags (table_header_pattern t) content = None"
  shows "extract_table_ddl fs (source_path_of d t) t = Inr None
     \<and> (\<exists>st st'. create_zip_with_ddls fs d tables = Inr st
          \<and> create_zip_with_ddls fs d (filter (\<lambda>x. x \<noteq> t) tables) = Inr st'
          \<and> t @ ''.sql'' \<notin> set (map fst (entries st))
          \<and> count_list (missing_tables st) t = count_list tables t
          \<and> entries st' = entries st
          \<and> extracted_count st' = extracted_count st
          \<and> missing_tables st' = filter (\<lambda>x. x \<noteq> t) (missing_tables st))"
proof -
  have ne: "\<not> header_found fs d t"
    using assms by (simp add: header_found_def)
  have none: "extract_table_ddl fs (source_path_of d t) t = Inr None"
    using assms by (simp add: extract_table_ddl_def extract_from_content_def hdr_flags_def)
  have same: "filter (header_found fs d) (filter (\<lambda>x. x \<noteq> t) tables)
      = filter (header_found fs d) tables"
    using ne by (auto intro: filter_cong)
  have rest: "filter (\<lambda>x. \<not> header_found fs d x) (filter (\<lambda>x. x \<noteq> t) tables)
      = filter (\<lambda>x. x \<noteq> t) (filter (\<lambda>x. \<not> header_found fs d x) tables)"
    by (auto intro: filter_cong)
  have absent: "t @ ''.sql''
      \<notin> set (map fst (map (entry_of fs d) (filter (header_found fs d) tables)))"
    using ne by (auto simp add: entry_name)
  have cnt: "count_list (filter (\<lambda>x. \<not> header_found fs d x) tables) t = count_list tables t"
    using ne by (simp add: count_list_filter)
  show ?thesis
    using none same rest absent cnt by (simp add: create_zip_result image_image)
qed

theorem missing_table_recorded_witness:
  "extract_table_ddl sample_fs ''/s/core_db.sql'' ''u'' = Inr None
   \<and> create_zip_with_ddls sample_fs ''/s'' [''t'', ''u''] =
        Inr \<lparr>entries = [entry_of sample_fs ''/s'' ''t''], extracted_count = 1,
             missing_tables = [''u'']\<rparr>"
proof -
  have f: "sample_fs (source_path_of ''/s'' ''u'') = Some sample_dump"
    by (simp add: sample_source_path sample_fs_def single_file_fs_def)
  show ?thesis
    using missing_table_recorded [of sample_fs "''/s''" "''u''" sample_dump "[''t'', ''u'']"]
      f sample_no_header_u sample_found sample_not_found
    by (simp add: sample_source_path create_zip_result)
qed

text \<open>
  The claim says "exactly once": a name that the table list holds twice is recorded
  twice.
\<close>

theorem missing_twice_counterexample:
  "sample_fs (source_path_of ''/s'' ''u'') = Some sample_dump
   \<and> re_search hdr_flags (table_header_pattern ''u'') sample_dump = None
   \<and> create_zip_with_ddls sample_fs ''/s'' [''u'', ''u''] =
        Inr \<lparr>entries = [], extracted_count = 0, missing_tables = [''u'', ''u'']\<rparr>
   \<and> count_list [''u'', ''u''] ''u'' = 2"
  using sample_no_header_u sample_not_found
  by (simp add: sample_source_path sample_fs_def single_file_fs_def create_zip_result)

section \<open>Two inputs on which the extractor goes wrong\<close>

text \<open>
  Claim C1 at a concrete input: the search for the next header (line 69) has no
  \<open>re.IGNORECASE\<close>, unlike the search for the header of the table (line 61).  With the
  header text in lower case the header of \<open>b\<close> is found, the one of \<open>c\<close> is not, and
  the section of \<open>b\<close> runs to the end of the file; with the usual case it ends before
  the header of \<open>c\<close>.
\<close>

theorem next_header_case_sensitive:
  "extract_table_ddl (single_file_fs ''/s/core_db.sql'' lower_case_dump) ''/s/core_db.sql'' ''b'' =
     Inr (Some
       (''-- '' @ dashes @ [nl] @ ''-- table structure for b'' @ [nl] @ ''-- '' @ dashes @ [nl]
        @ ''DROP TABLE b;'' @ [nl, nl]
        @ ''-- '' @ dashes @ [nl] @ ''-- table structure for c'' @ [nl] @ ''-- '' @ dashes @ [nl]
        @ ''DROP TABLE c;''))
   \<and> extract_table_ddl (single_file_fs ''/s/core_db.sql'' exact_case_dump) ''/s/core_db.sql'' ''b'' =
     Inr (Some
       (''-- '' @ dashes @ [nl] @ ''-- Table structure for b'' @ [nl] @ ''-- '' @ dashes @ [nl]
        @ ''DROP TABLE b;''))"
  by code_simp

text \<open>
  Claim C2 at a concrete input: when nothing follows the header of the table, the
  trimmed section has no line break after the closing dash line, \<open>find\<close> returns
  \<open>-1\<close> at line 86, and the DROP statement is put before the header, not after it.
  When a statement follows the header, the DROP statement comes right after the header.
\<close>

theorem drop_before_lone_header:
  "extract_table_ddl (single_file_fs ''/s/core_db.sql'' (header_block [] ''t'' @ [nl]))
     ''/s/core_db.sql'' ''t'' =
     Inr (Some (drop_statement ''uat_suncbs_coredb'' ''t'' @ header_block [] ''t''))
   \<and> extract_table_ddl sample_fs ''/s/core_db.sql'' ''t'' =
     Inr (Some (header_block [] ''t'' @ [nl] @ drop_statement ''uat_suncbs_coredb'' ''t''
                @ ''CREATE TABLE t (id int);''))"
  by code_simp

end
